theory Spec2Isabelle
  imports Main
begin

section \<open>Tables (main.py, lines 27--65)\<close>

text \<open>
  The three mapped classes, one record each. Every column is a field; the
  \<open>relationship\<close> attributes are derived from the foreign key columns and are
  not stored. Identifiers are Python integers. The foreign key columns are
  declared without \<open>nullable=False\<close>, so they hold \<open>None\<close> or an identifier.
\<close>

record BlogPost =
  bp_id :: int
  bp_author_id :: "int option"
  bp_title :: string
  bp_subtitle :: string
  bp_date :: string
  bp_body :: string
  bp_img_url :: string

record User =
  u_id :: int
  u_email :: string
  u_password :: string
  u_name :: string

record Comment =
  c_id :: int
  c_author_id :: "int option"
  c_text :: string
  c_post_id :: "int option"

section \<open>Application state\<close>

text \<open>
  The database behind \<open>db\<close> (three tables, rows in insertion order), the user
  identifier that flask-login keeps in the session, and one switch of the storage
  engine: whether it enforces the declared foreign keys. The engine is chosen by
  the environment variable \<open>DATABASE_URL\<close> (line 20); SQLite, which the comment on
  that line names, does not enforce them unless asked to, PostgreSQL does.
\<close>

record app =
  Users :: "User list"
  blog_posts :: "BlogPost list"
  comments :: "Comment list"
  session_user_id :: "int option"
  foreign_keys :: bool

datatype error =
    Abort nat
  | BadRequestKeyError string
  | TypeError
  | AttributeError
  | IntegrityError
  | UnmappedInstanceError

datatype ctxval =
    Str string
  | Num int
  | Flag bool
  | PostV BlogPost
  | PostsV "BlogPost list"
  | UsersV "User list"
  | CommentsV "Comment list"

text \<open>
  A response is a redirect to an endpoint with its \<open>url_for\<close> arguments, or a
  rendered template with its context. The form objects handed to the templates
  are presentation only and are left out of the context.
\<close>

datatype response =
    Redirect string "(string \<times> ctxval) list"
  | Render string "(string \<times> ctxval) list"

text \<open>
  The two methods the handlers tell apart and the URL rules admit by name.
\<close>

datatype http_method = GET | POST

text \<open>
  A request: its method, the submitted form and the query string as dictionaries,
  and three inputs that come from outside main.py: the outcome of the WTForms
  validators for the form the handler builds (forms.py is not among the sources),
  what \<open>edit_form.author.data\<close> yields as a user reference (\<open>None\<close> when the
  form has nothing usable there), and the formatted date of the day.
\<close>

record request =
  request_method :: http_method
  form :: "string \<rightharpoonup> string"
  args :: "string \<rightharpoonup> string"
  validates :: bool
  author_data :: "int option"
  today :: string

text \<open>
  The two functions of \<open>werkzeug.security\<close> the handlers call. They are library
  code, taken as parameters; a call of \<open>generate_password_hash\<close> draws a random
  salt, so each registration may be given its own function.
\<close>

record werkzeug =
  generate_password_hash :: "string \<Rightarrow> string"
  check_password_hash :: "string \<Rightarrow> string \<Rightarrow> bool"

type_synonym outcome = "(error + response) \<times> app"

type_synonym view = "(string \<times> int) list \<Rightarrow> request \<Rightarrow> app \<Rightarrow> outcome"

section \<open>Queries and the current user\<close>

definition next_id :: "int list \<Rightarrow> int" where
  \<comment> \<open>The integer primary key the engine assigns: one more than the largest in the
      table, 1 in an empty table.\<close>
  "next_id ids = fold max ids 0 + 1"

definition filter_by_email :: "app \<Rightarrow> string \<Rightarrow> User option" where
  \<comment> \<open>\<open>User.query.filter_by(email=email).first()\<close>\<close>
  "filter_by_email s email = find (\<lambda>u. u_email u = email) (Users s)"

definition filter_by_id :: "app \<Rightarrow> int option \<Rightarrow> User option" where
  \<comment> \<open>\<open>User.query.filter_by(id=...).first()\<close>; no row has a null identifier\<close>
  "filter_by_id s i = find (\<lambda>u. Some (u_id u) = i) (Users s)"

definition get_post :: "app \<Rightarrow> int \<Rightarrow> BlogPost option" where
  \<comment> \<open>\<open>BlogPost.query.get(post_id)\<close>\<close>
  "get_post s post_id = find (\<lambda>p. bp_id p = post_id) (blog_posts s)"

definition load_user :: "app \<Rightarrow> int \<Rightarrow> User option" where
  \<comment> \<open>lines 95--97\<close>
  "load_user s user_id = find (\<lambda>u. u_id u = user_id) (Users s)"

datatype current = Anonymous | Authenticated User

definition current_user :: "app \<Rightarrow> current" where
  \<comment> \<open>flask-login: the user the loader finds for the identifier in the session,
      the anonymous user otherwise\<close>
  "current_user s =
     (case session_user_id s of
        None \<Rightarrow> Anonymous
      | Some i \<Rightarrow> (case load_user s i of None \<Rightarrow> Anonymous | Some u \<Rightarrow> Authenticated u))"

fun is_active :: "current \<Rightarrow> bool" where
  "is_active Anonymous = False"
| "is_active (Authenticated u) = True"

fun is_authenticated :: "current \<Rightarrow> bool" where
  "is_authenticated Anonymous = False"
| "is_authenticated (Authenticated u) = True"

definition login_user :: "User \<Rightarrow> app \<Rightarrow> app" where
  "login_user u s = s\<lparr>session_user_id := Some (u_id u)\<rparr>"

definition logout_user :: "app \<Rightarrow> app" where
  "logout_user s = s\<lparr>session_user_id := None\<rparr>"

definition logged_in :: "app \<Rightarrow> string \<times> ctxval" where
  \<comment> \<open>the argument \<open>logged_in=current_user.is_active\<close> most handlers pass on\<close>
  "logged_in s = (''logged_in'', Flag (is_active (current_user s)))"

definition validate_on_submit :: "request \<Rightarrow> bool" where
  \<comment> \<open>Flask-WTF: the request is a submission (of the two methods here, POST) and
      the validators accept it\<close>
  "validate_on_submit req = (request_method req = POST \<and> validates req)"

section \<open>Handlers without a guard\<close>

definition get_all_posts :: "request \<Rightarrow> app \<Rightarrow> outcome" where
  \<comment> \<open>lines 100--104\<close>
  "get_all_posts req s =
     (Inr (Render ''index.html''
        [(''all_posts'', PostsV (blog_posts s)), logged_in s, (''all_users'', UsersV (Users s))]), s)"

definition already_signed_up :: string where
  "already_signed_up = ''You have already signed up with that email, log in instead!''"

definition register :: "werkzeug \<Rightarrow> request \<Rightarrow> app \<Rightarrow> outcome" where
  \<comment> \<open>lines 107--128; \<open>request.form[k]\<close> raises when the key is missing\<close>
  "register wz req s =
     (case request_method req of
        POST \<Rightarrow>
          (case form req ''name'' of
             None \<Rightarrow> (Inl (BadRequestKeyError ''name''), s)
           | Some name \<Rightarrow>
          (case form req ''password'' of
             None \<Rightarrow> (Inl (BadRequestKeyError ''password''), s)
           | Some password \<Rightarrow>
          (case form req ''email'' of
             None \<Rightarrow> (Inl (BadRequestKeyError ''email''), s)
           | Some email \<Rightarrow>
          (case filter_by_email s email of
             None \<Rightarrow>
               (let encrypt_password = generate_password_hash wz password;
                    new_user = \<lparr>u_id = next_id (map u_id (Users s)), u_email = email,
                                u_password = encrypt_password, u_name = name\<rparr>;
                    s' = login_user new_user (s\<lparr>Users := Users s @ [new_user]\<rparr>)
                in (Inr (Redirect ''get_all_posts'' [logged_in s']), s'))
           | Some user \<Rightarrow>
               (Inr (Render ''login.html'' [(''error'', Str already_signed_up), logged_in s]), s)))))
      | GET \<Rightarrow> (Inr (Render ''register.html'' [logged_in s]), s))"

definition email_unknown :: string where
  "email_unknown = ''the Email you entered doesn'' @ [CHR 0x27] @ ''t exist, please try again!''"

definition password_incorrect :: string where
  "password_incorrect = ''Password Incorrect, Please try again!''"

definition login :: "werkzeug \<Rightarrow> request \<Rightarrow> app \<Rightarrow> outcome" where
  \<comment> \<open>lines 131--150\<close>
  "login wz req s =
     (case request_method req of
        POST \<Rightarrow>
          (case form req ''email'' of
             None \<Rightarrow> (Inl (BadRequestKeyError ''email''), s)
           | Some email \<Rightarrow>
          (case form req ''password'' of
             None \<Rightarrow> (Inl (BadRequestKeyError ''password''), s)
           | Some password \<Rightarrow>
          (case filter_by_email s email of
             None \<Rightarrow>
               (Inr (Render ''login.html'' [(''error'', Str email_unknown), logged_in s]), s)
           | Some user \<Rightarrow>
               if check_password_hash wz (u_password user) password
               then (Inr (Redirect ''get_all_posts'' []), login_user user s)
               else (Inr (Render ''login.html''
                       [(''error'', Str password_incorrect), logged_in s]), s))))
      | GET \<Rightarrow>
          (case args req ''error'' of
             None \<Rightarrow> (Inl (BadRequestKeyError ''error''), s)
           | Some error \<Rightarrow>
               (Inr (Render ''login.html'' [(''error'', Str error), logged_in s]), s)))"

definition logout :: "request \<Rightarrow> app \<Rightarrow> outcome" where
  \<comment> \<open>lines 153--156\<close>
  "logout req s =
     (let s' = logout_user s in (Inr (Redirect ''get_all_posts'' [logged_in s']), s'))"

definition login_to_comment :: string where
  "login_to_comment = ''You need to logged first in in order to be able to add comments!''"

definition show_post :: "int \<Rightarrow> request \<Rightarrow> app \<Rightarrow> outcome" where
  \<comment> \<open>lines 159--177. Reading an attribute of \<open>None\<close> raises AttributeError. The
      commit fails on a null \<open>text\<close> and, where the engine enforces foreign keys, on
      a \<open>post_id\<close> that names no post. An authenticated request whose form does not
      validate falls off the end of the function: Flask raises TypeError for a
      view that returns \<open>None\<close>.\<close>
  "show_post post_id req s =
     (case request_method req of
        GET \<Rightarrow>
          (case get_post s post_id of
             None \<Rightarrow> (Inl AttributeError, s)
           | Some requested_post \<Rightarrow>
          (case filter_by_id s (bp_author_id requested_post) of
             None \<Rightarrow> (Inl AttributeError, s)
           | Some author \<Rightarrow>
               (Inr (Render ''post.html''
                  [(''post'', PostV requested_post), logged_in s,
                   (''author_name'', Str (u_name author)),
                   (''comments'', CommentsV (comments s))]), s)))
      | POST \<Rightarrow>
          (case current_user s of
             Authenticated u \<Rightarrow>
               if validate_on_submit req then
                 (case form req ''comment'' of
                    None \<Rightarrow> (Inl IntegrityError, s)
                  | Some text \<Rightarrow>
                      if foreign_keys s \<and> get_post s post_id = None then (Inl IntegrityError, s)
                      else
                        (let new_comment =
                               \<lparr>c_id = next_id (map c_id (comments s)), c_author_id = Some (u_id u),
                                c_text = text, c_post_id = Some post_id\<rparr>
                         in (Inr (Redirect ''get_all_posts'' []),
                             s\<lparr>comments := comments s @ [new_comment]\<rparr>)))
               else (Inl TypeError, s)
           | Anonymous \<Rightarrow>
               (Inr (Redirect ''login'' [(''error'', Str login_to_comment)]), s)))"

definition about :: "request \<Rightarrow> app \<Rightarrow> outcome" where
  "about req s = (Inr (Render ''about.html'' [logged_in s]), s)"

definition contact :: "request \<Rightarrow> app \<Rightarrow> outcome" where
  "contact req s = (Inr (Render ''contact.html'' [logged_in s]), s)"

section \<open>The post handlers (lines 190--241), before decoration\<close>

definition add_new_post :: "request \<Rightarrow> app \<Rightarrow> outcome" where
  \<comment> \<open>lines 193--207. \<open>author=current_user\<close> needs a mapped user. The commit
      fails on a null column and on a title another post has (line 36).\<close>
  "add_new_post req s =
     (if validate_on_submit req then
        (case current_user s of
           Anonymous \<Rightarrow> (Inl AttributeError, s)
         | Authenticated u \<Rightarrow>
        (case form req ''title'' of None \<Rightarrow> (Inl IntegrityError, s) | Some title \<Rightarrow>
        (case form req ''subtitle'' of None \<Rightarrow> (Inl IntegrityError, s) | Some subtitle \<Rightarrow>
        (case form req ''body'' of None \<Rightarrow> (Inl IntegrityError, s) | Some body \<Rightarrow>
        (case form req ''img_url'' of None \<Rightarrow> (Inl IntegrityError, s) | Some img_url \<Rightarrow>
           if title \<in> set (map bp_title (blog_posts s)) then (Inl IntegrityError, s)
           else
             (let new_post =
                    \<lparr>bp_id = next_id (map bp_id (blog_posts s)), bp_author_id = Some (u_id u),
                     bp_title = title, bp_subtitle = subtitle, bp_date = today req,
                     bp_body = body, bp_img_url = img_url\<rparr>
              in (Inr (Redirect ''get_all_posts'' []),
                  s\<lparr>blog_posts := blog_posts s @ [new_post]\<rparr>)))))))
      else (Inr (Render ''make-post.html'' [logged_in s]), s))"

definition edit_post :: "int \<Rightarrow> request \<Rightarrow> app \<Rightarrow> outcome" where
  \<comment> \<open>lines 213--231. \<open>post.title\<close> on \<open>None\<close> raises AttributeError, and so does
      the assignment of line 226 when the form yields no user. The commit fails on
      a null column, on a title another post has and, where foreign keys are
      enforced, on an author that names no user.\<close>
  "edit_post post_id req s =
     (case get_post s post_id of
        None \<Rightarrow> (Inl AttributeError, s)
      | Some post \<Rightarrow>
          if validate_on_submit req then
            (case author_data req of None \<Rightarrow> (Inl AttributeError, s) | Some author \<Rightarrow>
            (case form req ''title'' of None \<Rightarrow> (Inl IntegrityError, s) | Some title \<Rightarrow>
            (case form req ''subtitle'' of None \<Rightarrow> (Inl IntegrityError, s) | Some subtitle \<Rightarrow>
            (case form req ''img_url'' of None \<Rightarrow> (Inl IntegrityError, s) | Some img_url \<Rightarrow>
            (case form req ''body'' of None \<Rightarrow> (Inl IntegrityError, s) | Some body \<Rightarrow>
               if title \<in> set (map bp_title (filter (\<lambda>p. bp_id p \<noteq> post_id) (blog_posts s)))
                  \<or> (foreign_keys s \<and> load_user s author = None)
               then (Inl IntegrityError, s)
               else
                 (let post' = post\<lparr>bp_title := title, bp_subtitle := subtitle,
                                   bp_img_url := img_url, bp_author_id := Some author,
                                   bp_body := body\<rparr>
                  in (Inr (Redirect ''show_post'' [(''post_id'', Num (bp_id post)), logged_in s]),
                      s\<lparr>blog_posts :=
                           map (\<lambda>p. if bp_id p = post_id then post' else p) (blog_posts s)\<rparr>)))))))
          else (Inr (Render ''make-post.html'' [logged_in s]), s))"

definition delete_post :: "int \<Rightarrow> request \<Rightarrow> app \<Rightarrow> outcome" where
  \<comment> \<open>lines 237--241. \<open>db.session.delete(None)\<close> raises UnmappedInstanceError.
      The relationship of line 41 declares no cascade, so the unit of work sets
      \<open>post_id\<close> of the post's comments to null before it deletes the row.\<close>
  "delete_post post_id req s =
     (case get_post s post_id of
        None \<Rightarrow> (Inl UnmappedInstanceError, s)
      | Some post_to_delete \<Rightarrow>
          (let s' = s\<lparr>blog_posts := filter (\<lambda>p. bp_id p \<noteq> post_id) (blog_posts s),
                      comments := map (\<lambda>c. if c_post_id c = Some post_id
                                            then c\<lparr>c_post_id := None\<rparr> else c) (comments s)\<rparr>
           in (Inr (Redirect ''get_all_posts'' [logged_in s']), s')))"

section \<open>Decorators and routes\<close>

text \<open>
  Flask calls a view with the variables of the URL rule as keyword arguments. A
  Python function called with a keyword it does not declare, or without an
  argument it requires, raises TypeError before its body runs.
\<close>

definition no_params :: "(request \<Rightarrow> app \<Rightarrow> outcome) \<Rightarrow> view" where
  \<comment> \<open>a function declared \<open>def f():\<close>\<close>
  "no_params f kwargs req s = (if kwargs = [] then f req s else (Inl TypeError, s))"

definition post_id_param :: "(int \<Rightarrow> request \<Rightarrow> app \<Rightarrow> outcome) \<Rightarrow> view" where
  \<comment> \<open>a function declared \<open>def f(post_id):\<close>\<close>
  "post_id_param f kwargs req s =
     (case kwargs of
        [(k, v)] \<Rightarrow> if k = ''post_id'' then f v req s else (Inl TypeError, s)
      | _ \<Rightarrow> (Inl TypeError, s))"

definition admin_only :: "view \<Rightarrow> view" where
  \<comment> \<open>lines 82--92: \<open>wrapper\<close> declares no parameter and calls \<open>function()\<close>
      with none. The anonymous user has no attribute \<open>id\<close>.\<close>
  "admin_only function =
     no_params (\<lambda>req s.
       case current_user s of
         Anonymous \<Rightarrow> (Inl AttributeError, s)
       | Authenticated u \<Rightarrow>
           if u_id u = 1 then function [] req s else (Inl (Abort 403), s))"

definition login_required :: "view \<Rightarrow> view" where
  \<comment> \<open>flask-login: \<open>decorated_view(*args, **kwargs)\<close> hands its arguments on.
      No \<open>login_view\<close> is configured, so an anonymous request is aborted with 401.\<close>
  "login_required func kwargs req s =
     (if \<not> is_authenticated (current_user s) then (Inl (Abort 401), s)
      else func kwargs req s)"

definition url_rule :: "http_method list \<Rightarrow> view \<Rightarrow> view" where
  \<comment> \<open>\<open>app.route(rule, methods=...)\<close>: another method is answered with 405\<close>
  "url_rule methods f kwargs req s =
     (if request_method req \<in> set methods then f kwargs req s else (Inl (Abort 405), s))"

definition route_new_post :: "request \<Rightarrow> app \<Rightarrow> outcome" where
  \<comment> \<open>lines 190--193\<close>
  "route_new_post =
     url_rule [POST, GET] (login_required (admin_only (no_params add_new_post))) []"

definition route_edit_post :: "int \<Rightarrow> request \<Rightarrow> app \<Rightarrow> outcome" where
  \<comment> \<open>lines 210--213\<close>
  "route_edit_post post_id =
     url_rule [GET] (login_required (admin_only (post_id_param edit_post)))
       [(''post_id'', post_id)]"

definition route_delete :: "int \<Rightarrow> request \<Rightarrow> app \<Rightarrow> outcome" where
  \<comment> \<open>lines 234--237\<close>
  "route_delete post_id =
     url_rule [GET] (login_required (admin_only (post_id_param delete_post)))
       [(''post_id'', post_id)]"

definition route_show_post :: "int \<Rightarrow> request \<Rightarrow> app \<Rightarrow> outcome" where
  \<comment> \<open>line 159\<close>
  "route_show_post post_id =
     url_rule [POST, GET] (post_id_param show_post) [(''post_id'', post_id)]"

section \<open>Derived notions used in the statements\<close>

definition registered :: "werkzeug \<Rightarrow> string \<Rightarrow> string \<Rightarrow> string \<Rightarrow> app \<Rightarrow> User" where
  \<comment> \<open>the row that lines 118--119 build\<close>
  "registered wz name email password s =
     \<lparr>u_id = next_id (map u_id (Users s)), u_email = email,
      u_password = generate_password_hash wz password, u_name = name\<rparr>"

definition comments_on :: "int \<Rightarrow> app \<Rightarrow> nat" where
  \<comment> \<open>how many stored comments have the post as their parent\<close>
  "comments_on post_id s = length (filter (\<lambda>c. c_post_id c = Some post_id) (comments s))"

definition names_user :: "app \<Rightarrow> int option \<Rightarrow> bool" where
  "names_user s r = (case r of None \<Rightarrow> False | Some i \<Rightarrow> i \<in> set (map u_id (Users s)))"

definition names_post :: "app \<Rightarrow> int option \<Rightarrow> bool" where
  "names_post s r = (case r of None \<Rightarrow> False | Some i \<Rightarrow> i \<in> set (map bp_id (blog_posts s)))"

definition references_exist :: "app \<Rightarrow> bool" where
  \<comment> \<open>the referential invariant of the data model\<close>
  "references_exist s =
     (list_all (\<lambda>c. names_user s (c_author_id c) \<and> names_post s (c_post_id c)) (comments s)
      \<and> list_all (\<lambda>p. names_user s (bp_author_id p)) (blog_posts s))"

text \<open>
  The requests a client can send, one constructor per route, and a run of the
  application over a list of them.
\<close>

datatype operation =
    Register request
  | Login request
  | Logout request
  | New_Post request
  | Edit_Post int request
  | Delete int request
  | Show_Post int request

fun perform :: "werkzeug \<Rightarrow> operation \<Rightarrow> app \<Rightarrow> outcome" where
  "perform wz (Register req) s = url_rule [POST, GET] (no_params (register wz)) [] req s"
| "perform wz (Login req) s = url_rule [POST, GET] (no_params (login wz)) [] req s"
| "perform wz (Logout req) s = url_rule [GET] (no_params logout) [] req s"
| "perform wz (New_Post req) s = route_new_post req s"
| "perform wz (Edit_Post post_id req) s = route_edit_post post_id req s"
| "perform wz (Delete post_id req) s = route_delete post_id req s"
| "perform wz (Show_Post post_id req) s = route_show_post post_id req s"

fun run :: "werkzeug \<Rightarrow> operation list \<Rightarrow> app \<Rightarrow> app" where
  "run wz [] s = s"
| "run wz (operation # operations) s = run wz operations (snd (perform wz operation s))"

section \<open>Concrete data for evaluation\<close>

text \<open>
  A stand-in for the password library, used only to evaluate the handlers on
  concrete inputs: the stored string is the password behind a fixed prefix.
\<close>

definition plain_werkzeug :: werkzeug where
  "plain_werkzeug =
     \<lparr>generate_password_hash = (\<lambda>password. ''pbkdf2:sha256$salt$'' @ password),
      check_password_hash = (\<lambda>pwhash password. pwhash = ''pbkdf2:sha256$salt$'' @ password)\<rparr>"

definition empty_app :: app where
  "empty_app = \<lparr>Users = [], blog_posts = [], comments = [], session_user_id = None,
                 foreign_keys = False\<rparr>"

definition post_request :: "(string \<times> string) list \<Rightarrow> request" where
  "post_request kvs =
     \<lparr>request_method = POST, form = map_of kvs, args = Map.empty, validates = True,
      author_data = None, today = ''November 04, 2026''\<rparr>"

definition get_request :: "(string \<times> string) list \<Rightarrow> request" where
  "get_request kvs =
     \<lparr>request_method = GET, form = Map.empty, args = map_of kvs, validates = False,
      author_data = None, today = ''November 04, 2026''\<rparr>"

definition register_form :: "string \<Rightarrow> string \<Rightarrow> string \<Rightarrow> request" where
  "register_form name email password =
     post_request [(''name'', name), (''email'', email), (''password'', password)]"

definition login_form :: "string \<Rightarrow> string \<Rightarrow> request" where
  "login_form email password = post_request [(''email'', email), (''password'', password)]"

definition comment_form :: "string \<Rightarrow> request" where
  "comment_form text = post_request [(''comment'', text)]"

definition admin :: User where
  "admin = \<lparr>u_id = 1, u_email = ''admin@x.com'', u_password = ''pbkdf2:sha256$salt$root'',
            u_name = ''Admin''\<rparr>"

definition user_a :: User where
  "user_a = \<lparr>u_id = 2, u_email = ''a@x.com'', u_password = ''pbkdf2:sha256$salt$pw1'',
             u_name = ''A''\<rparr>"

definition post_p :: BlogPost where
  "post_p = \<lparr>bp_id = 1, bp_author_id = Some 1, bp_title = ''P'', bp_subtitle = ''first'',
             bp_date = ''November 03, 2026'', bp_body = ''Hello'', bp_img_url = ''p.png''\<rparr>"

definition post_q :: BlogPost where
  "post_q = \<lparr>bp_id = 2, bp_author_id = Some 1, bp_title = ''Q'', bp_subtitle = ''second'',
             bp_date = ''November 04, 2026'', bp_body = ''World'', bp_img_url = ''q.png''\<rparr>"

definition blog :: "int option \<Rightarrow> app" where
  \<comment> \<open>two users, two posts, no comment; the argument is the session's user\<close>
  "blog i = \<lparr>Users = [admin, user_a], blog_posts = [post_p, post_q], comments = [],
             session_user_id = i, foreign_keys = False\<rparr>"

section \<open>Auxiliary facts\<close>

lemma fold_max_ge: "(a::int) \<le> fold max ids a"
  by (induction ids arbitrary: a) (auto intro: order_trans [OF max.cobounded2])

lemma fold_max_mem: "(x::int) \<in> set ids \<Longrightarrow> x \<le> fold max ids a"
proof (induction ids arbitrary: a)
  case Nil
  then show ?case by simp
next
  case (Cons y ys)
  show ?case
  proof (cases "x = y")
    case True
    have "y \<le> max y a" by simp
    also have "\<dots> \<le> fold max ys (max y a)" by (rule fold_max_ge)
    finally show ?thesis using True by simp
  next
    case False
    with Cons show ?thesis by simp
  qed
qed

lemma next_id_fresh: "next_id ids \<notin> set ids"
proof
  assume "next_id ids \<in> set ids"
  then have "next_id ids \<le> fold max ids 0" by (rule fold_max_mem)
  then show False by (simp add: next_id_def)
qed

lemma find_append:
  "find P (xs @ ys) = (case find P xs of None \<Rightarrow> find P ys | Some x \<Rightarrow> Some x)"
  by (induction xs) simp_all

lemma find_SomeD: "find P xs = Some x \<Longrightarrow> P x \<and> x \<in> set xs"
  by (induction xs) (auto split: if_splits)

lemma no_user_with_next_id:
  "find (\<lambda>u. u_id u = next_id (map u_id (Users s))) (Users s) = None"
  unfolding find_None_iff using next_id_fresh [of "map u_id (Users s)"] unfolding set_map
  by (metis imageI)

subsection \<open>The guards\<close>

lemma admin_only_kwargs:
  "kwargs \<noteq> [] \<Longrightarrow> admin_only function kwargs req s = (Inl TypeError, s)"
  by (simp add: admin_only_def no_params_def)

lemma guarded_post_id_view:
  "url_rule [GET] (login_required (admin_only function)) [(''post_id'', post_id)] req s =
     (Inl (if request_method req \<noteq> GET then Abort 405
           else if is_authenticated (current_user s) then TypeError else Abort 401), s)"
  by (simp add: url_rule_def login_required_def admin_only_kwargs)

lemma route_new_post_guard:
  "route_new_post req s =
     (case current_user s of
        Anonymous \<Rightarrow> (Inl (Abort 401), s)
      | Authenticated u \<Rightarrow> if u_id u = 1 then add_new_post req s else (Inl (Abort 403), s))"
  by (cases "request_method req")
     (simp_all add: route_new_post_def url_rule_def login_required_def admin_only_def
        no_params_def split: current.splits)

subsection \<open>Registration\<close>

lemma register_fresh:
  assumes "request_method req = POST"
    and "form req ''name'' = Some name"
    and "form req ''password'' = Some password"
    and "form req ''email'' = Some email"
    and "filter_by_email s email = None"
  shows "register wz req s =
           (Inr (Redirect ''get_all_posts'' [(''logged_in'', Flag True)]),
            s\<lparr>Users := Users s @ [registered wz name email password s],
              session_user_id := Some (next_id (map u_id (Users s)))\<rparr>)"
proof -
  let ?u = "registered wz name email password s"
  let ?s' = "s\<lparr>Users := Users s @ [?u], session_user_id := Some (u_id ?u)\<rparr>"
  have "current_user ?s' = Authenticated ?u"
    using no_user_with_next_id [of s]
    by (simp add: current_user_def load_user_def find_append registered_def)
  then have "logged_in ?s' = (''logged_in'', Flag True)"
    by (simp add: logged_in_def)
  then show ?thesis
    using assms by (simp add: register_def Let_def login_user_def registered_def)
qed

lemma register_known:
  assumes "request_method req = POST"
    and "form req ''name'' = Some name"
    and "form req ''password'' = Some password"
    and "form req ''email'' = Some email"
    and "filter_by_email s email = Some user"
  shows "register wz req s =
           (Inr (Render ''login.html'' [(''error'', Str already_signed_up), logged_in s]), s)"
  using assms by (simp add: register_def)

lemma filter_by_email_None: "filter_by_email s email = None \<longleftrightarrow> email \<notin> set (map u_email (Users s))"
  by (auto simp: filter_by_email_def find_None_iff)

lemma login_registered:
  assumes "filter_by_email s email = None"
    and "request_method req = POST"
    and "form req ''email'' = Some email"
    and "form req ''password'' = Some p"
  shows "login wz req
           (s\<lparr>Users := Users s @ [registered wz name email password s],
              session_user_id := Some (next_id (map u_id (Users s)))\<rparr>) =
         (if check_password_hash wz (generate_password_hash wz password) p
          then Inr (Redirect ''get_all_posts'' [])
          else Inr (Render ''login.html''
                 [(''error'', Str password_incorrect), (''logged_in'', Flag True)]),
          s\<lparr>Users := Users s @ [registered wz name email password s],
             session_user_id := Some (next_id (map u_id (Users s)))\<rparr>)"
proof -
  let ?u = "registered wz name email password s"
  let ?s' = "s\<lparr>Users := Users s @ [?u], session_user_id := Some (next_id (map u_id (Users s)))\<rparr>"
  have f: "filter_by_email ?s' email = Some ?u"
    using assms(1) by (simp add: filter_by_email_def find_append registered_def)
  have cu: "current_user ?s' = Authenticated ?u"
    using no_user_with_next_id [of s]
    by (simp add: current_user_def load_user_def find_append registered_def)
  show ?thesis
    using assms(2-4) f cu
    by (simp add: login_def logged_in_def login_user_def registered_def)
qed

section \<open>Properties of the handlers\<close>

subsection \<open>The guards of the post routes\<close>

text \<open>
  C5. Every request to \<open>/edit-post/<id>\<close> or \<open>/delete/<id>\<close> ends in an error
  before the body of \<open>edit_post\<close> or \<open>delete_post\<close> runs, whoever sends it, and
  leaves the state as it was. \<open>wrapper\<close> of \<open>admin_only\<close> declares no parameter,
  Flask passes \<open>post_id\<close>, so every authenticated caller, the user with
  identifier 1 included, gets TypeError. An anonymous caller is stopped one step
  earlier by \<open>login_required\<close> (401), and a method other than GET by the URL rule
  (405).
\<close>

theorem guarded_routes_never_reach_handler:
  "route_edit_post post_id req s =
     (Inl (if request_method req \<noteq> GET then Abort 405
           else if is_authenticated (current_user s) then TypeError else Abort 401), s)
   \<and> route_delete post_id req s =
     (Inl (if request_method req \<noteq> GET then Abort 405
           else if is_authenticated (current_user s) then TypeError else Abort 401), s)"
  by (simp only: route_edit_post_def route_delete_def guarded_post_id_view)

text \<open>
  C1. Only the user with identifier 1 may create, edit or delete a post; another
  authenticated user is answered with 403. The create route does this
  (\<open>route_new_post_guard\<close>). The edit and delete routes do not: for the user with
  identifier 1, logged in, and the stored post 1, \<open>GET /delete/1\<close> and
  \<open>GET /edit-post/1\<close> raise TypeError and the post stays; for user 2 the answer
  is the same TypeError, not 403.
\<close>

theorem admin_cannot_edit_or_delete:
  "current_user (blog (Some 1)) = Authenticated admin
   \<and> u_id admin = 1
   \<and> get_post (blog (Some 1)) 1 = Some post_p
   \<and> route_delete 1 (get_request []) (blog (Some 1)) = (Inl TypeError, blog (Some 1))
   \<and> route_edit_post 1 (get_request []) (blog (Some 1)) = (Inl TypeError, blog (Some 1))
   \<and> current_user (blog (Some 2)) = Authenticated user_a
   \<and> route_delete 1 (get_request []) (blog (Some 2)) = (Inl TypeError, blog (Some 2))"
proof -
  have 1: "current_user (blog (Some 1)) = Authenticated admin"
    by (simp add: current_user_def load_user_def blog_def admin_def)
  have 2: "current_user (blog (Some 2)) = Authenticated user_a"
    by (simp add: current_user_def load_user_def blog_def admin_def user_a_def)
  have 3: "request_method (get_request []) = GET" by (simp add: get_request_def)
  have 4: "get_post (blog (Some 1)) 1 = Some post_p"
    by (simp add: get_post_def blog_def post_p_def)
  show ?thesis
    using 1 2 3 4
    by (simp add: route_edit_post_def route_delete_def guarded_post_id_view admin_def)
qed

subsection \<open>Login form and comments of anonymous users\<close>

text \<open>
  C6. A GET request to \<open>/login\<close> reads \<open>request.args["error"]\<close> without a
  default: without the parameter the handler raises (BadRequestKeyError) and
  renders nothing; with it, the login form is rendered with that message.
\<close>

theorem login_get_reads_error:
  assumes "request_method req = GET"
  shows "login wz req s =
     (case args req ''error'' of
        None \<Rightarrow> (Inl (BadRequestKeyError ''error''), s)
      | Some error \<Rightarrow> (Inr (Render ''login.html'' [(''error'', Str error), logged_in s]), s))"
  using assms by (simp add: login_def)

theorem login_get_reads_error_witness:
  "request_method (get_request []) = GET
   \<and> args (get_request []) ''error'' = None
   \<and> login plain_werkzeug (get_request []) empty_app = (Inl (BadRequestKeyError ''error''), empty_app)
   \<and> request_method (get_request [(''error'', ''Please log in'')]) = GET
   \<and> login plain_werkzeug (get_request [(''error'', ''Please log in'')]) empty_app =
       (Inr (Render ''login.html'' [(''error'', Str ''Please log in''), (''logged_in'', Flag False)]),
        empty_app)"
proof -
  have a: "request_method (get_request kvs) = GET" for kvs by (simp add: get_request_def)
  have l: "logged_in empty_app = (''logged_in'', Flag False)"
    by (simp add: logged_in_def current_user_def empty_app_def)
  have n: "args (get_request []) ''error'' = None" by (simp add: get_request_def)
  have e: "args (get_request [(''error'', ''Please log in'')]) ''error'' = Some ''Please log in''"
    by (simp add: get_request_def)
  show ?thesis
    using login_get_reads_error [OF a, of plain_werkzeug "[]" empty_app]
      login_get_reads_error [OF a, of plain_werkzeug "[(''error'', ''Please log in'')]" empty_app]
    by (simp add: a l n e)
qed

text \<open>
  C8. An anonymous request that submits a comment is redirected to the login
  page with an explanatory message, and the state, its comments included, is
  unchanged.
\<close>

theorem anonymous_comment_redirected:
  assumes "current_user s = Anonymous" and "request_method req = POST"
  shows "route_show_post post_id req s =
           (Inr (Redirect ''login'' [(''error'', Str login_to_comment)]), s)
       \<and> login_to_comment \<noteq> []"
  using assms
  by (simp add: route_show_post_def url_rule_def post_id_param_def show_post_def
      login_to_comment_def)

theorem anonymous_comment_redirected_witness:
  "current_user (blog None) = Anonymous
   \<and> request_method (comment_form ''Nice post'') = POST
   \<and> route_show_post 1 (comment_form ''Nice post'') (blog None) =
       (Inr (Redirect ''login'' [(''error'', Str login_to_comment)]), blog None)
   \<and> comments (blog None) = []"
proof -
  have a: "current_user (blog None) = Anonymous" by (simp add: current_user_def blog_def)
  have b: "request_method (comment_form ''Nice post'') = POST"
    by (simp add: comment_form_def post_request_def)
  show ?thesis
    using anonymous_comment_redirected [OF a b, of 1] a b by (simp add: blog_def)
qed

subsection \<open>Registration and the password check\<close>

text \<open>
  C2. A registration whose email a stored user already has adds no user: the
  state is unchanged and the login form is rendered with a message. A
  registration with an email no stored user has appends exactly one user, with
  that email and name, the generated hash and a fresh identifier; posts and
  comments are untouched.
\<close>

theorem register_rejects_known_email:
  assumes "request_method req = POST"
    and "form req ''name'' = Some name"
    and "form req ''password'' = Some password"
    and "form req ''email'' = Some email"
  shows "(email \<in> set (map u_email (Users s)) \<longrightarrow>
            register wz req s =
              (Inr (Render ''login.html'' [(''error'', Str already_signed_up), logged_in s]), s))
       \<and> (email \<notin> set (map u_email (Users s)) \<longrightarrow>
            (\<exists>r s' new_user.
               register wz req s = (Inr r, s')
             \<and> r = Redirect ''get_all_posts'' [(''logged_in'', Flag True)]
             \<and> Users s' = Users s @ [new_user]
             \<and> u_email new_user = email \<and> u_name new_user = name
             \<and> u_password new_user = generate_password_hash wz password
             \<and> u_id new_user \<notin> set (map u_id (Users s))
             \<and> blog_posts s' = blog_posts s \<and> comments s' = comments s))"
proof (intro conjI impI)
  assume "email \<in> set (map u_email (Users s))"
  then obtain user where "filter_by_email s email = Some user"
    by (cases "filter_by_email s email") (simp_all add: filter_by_email_None)
  with assms show "register wz req s =
      (Inr (Render ''login.html'' [(''error'', Str already_signed_up), logged_in s]), s)"
    by (rule register_known)
next
  assume "email \<notin> set (map u_email (Users s))"
  then have none: "filter_by_email s email = None"
    by (simp add: filter_by_email_None)
  let ?u = "registered wz name email password s"
  have "u_id ?u \<notin> set (map u_id (Users s))"
    using next_id_fresh [of "map u_id (Users s)"] by (simp add: registered_def)
  then show "\<exists>r s' new_user.
               register wz req s = (Inr r, s')
             \<and> r = Redirect ''get_all_posts'' [(''logged_in'', Flag True)]
             \<and> Users s' = Users s @ [new_user]
             \<and> u_email new_user = email \<and> u_name new_user = name
             \<and> u_password new_user = generate_password_hash wz password
             \<and> u_id new_user \<notin> set (map u_id (Users s))
             \<and> blog_posts s' = blog_posts s \<and> comments s' = comments s"
    using register_fresh [OF assms none, of wz] by (simp add: registered_def)
qed

theorem register_rejects_known_email_witness:
  "request_method (register_form ''A'' ''a@x.com'' ''pw1'') = POST
   \<and> form (register_form ''A'' ''a@x.com'' ''pw1'') ''name'' = Some ''A''
   \<and> form (register_form ''A'' ''a@x.com'' ''pw1'') ''password'' = Some ''pw1''
   \<and> form (register_form ''A'' ''a@x.com'' ''pw1'') ''email'' = Some ''a@x.com''
   \<and> ''a@x.com'' \<in> set (map u_email (Users (blog None)))
   \<and> register plain_werkzeug (register_form ''A'' ''a@x.com'' ''pw1'') (blog None) =
        (Inr (Render ''login.html''
           [(''error'', Str already_signed_up), (''logged_in'', Flag False)]), blog None)
   \<and> ''a@x.com'' \<notin> set (map u_email (Users empty_app))
   \<and> (\<exists>s'. register plain_werkzeug (register_form ''A'' ''a@x.com'' ''pw1'') empty_app =
          (Inr (Redirect ''get_all_posts'' [(''logged_in'', Flag True)]), s')
        \<and> length (Users s') = 1)"
proof -
  let ?req = "register_form ''A'' ''a@x.com'' ''pw1''"
  have m: "request_method ?req = POST"
    and n: "form ?req ''name'' = Some ''A''"
    and p: "form ?req ''password'' = Some ''pw1''"
    and e: "form ?req ''email'' = Some ''a@x.com''"
    by (simp_all add: register_form_def post_request_def)
  have known: "''a@x.com'' \<in> set (map u_email (Users (blog None)))"
    by (simp add: blog_def user_a_def)
  have fresh: "''a@x.com'' \<notin> set (map u_email (Users empty_app))"
    by (simp add: empty_app_def)
  have l: "logged_in (blog None) = (''logged_in'', Flag False)"
    by (simp add: logged_in_def current_user_def blog_def)
  have 1: "register plain_werkzeug ?req (blog None) =
        (Inr (Render ''login.html''
           [(''error'', Str already_signed_up), (''logged_in'', Flag False)]), blog None)"
    using register_rejects_known_email [OF m n p e, of "blog None" plain_werkzeug] known l
    by simp
  have 2: "\<exists>s'. register plain_werkzeug ?req empty_app =
          (Inr (Redirect ''get_all_posts'' [(''logged_in'', Flag True)]), s')
        \<and> length (Users s') = 1"
    using register_rejects_known_email [OF m n p e, of empty_app plain_werkzeug] fresh
    by (auto simp: empty_app_def)
  show ?thesis using m n p e known fresh 1 2 by simp
qed

text \<open>
  C3, as the code has it. After a successful registration with a password, a
  login with the same email and a password \<open>p\<close> succeeds exactly when
  \<open>check_password_hash\<close> accepts \<open>p\<close> against the hash generated for the
  registered password, and is answered with the incorrect-password message
  otherwise. So the login with the registered password succeeds when the library
  accepts the password it hashed, and a different password is rejected when the
  library rejects it.
\<close>

theorem login_after_register:
  assumes "request_method req = POST"
    and "form req ''name'' = Some name"
    and "form req ''password'' = Some password"
    and "form req ''email'' = Some email"
    and "filter_by_email s email = None"
    and "request_method req' = POST"
    and "form req' ''email'' = Some email"
    and "form req' ''password'' = Some p"
  shows "\<exists>r s'. register wz req s = (Inr r, s')
           \<and> login wz req' s' =
               (if check_password_hash wz (generate_password_hash wz password) p
                then Inr (Redirect ''get_all_posts'' [])
                else Inr (Render ''login.html''
                       [(''error'', Str password_incorrect), (''logged_in'', Flag True)]), s')"
  using register_fresh [OF assms(1-5), of wz]
    login_registered [OF assms(5-8), of wz name password]
  by simp

theorem login_after_register_witness:
  "request_method (register_form ''A'' ''a@x.com'' ''pw1'') = POST
   \<and> form (register_form ''A'' ''a@x.com'' ''pw1'') ''name'' = Some ''A''
   \<and> form (register_form ''A'' ''a@x.com'' ''pw1'') ''password'' = Some ''pw1''
   \<and> form (register_form ''A'' ''a@x.com'' ''pw1'') ''email'' = Some ''a@x.com''
   \<and> filter_by_email empty_app ''a@x.com'' = None
   \<and> request_method (login_form ''a@x.com'' ''pw1'') = POST
   \<and> form (login_form ''a@x.com'' ''pw1'') ''email'' = Some ''a@x.com''
   \<and> form (login_form ''a@x.com'' ''pw1'') ''password'' = Some ''pw1''
   \<and> form (login_form ''a@x.com'' ''pw2'') ''password'' = Some ''pw2''
   \<and> (\<exists>r s'. register plain_werkzeug (register_form ''A'' ''a@x.com'' ''pw1'') empty_app = (Inr r, s')
         \<and> login plain_werkzeug (login_form ''a@x.com'' ''pw1'') s' =
             (Inr (Redirect ''get_all_posts'' []), s')
         \<and> login plain_werkzeug (login_form ''a@x.com'' ''pw2'') s' =
             (Inr (Render ''login.html''
                [(''error'', Str password_incorrect), (''logged_in'', Flag True)]), s'))"
proof -
  let ?req = "register_form ''A'' ''a@x.com'' ''pw1''"
  have m: "request_method ?req = POST"
    and n: "form ?req ''name'' = Some ''A''"
    and p: "form ?req ''password'' = Some ''pw1''"
    and e: "form ?req ''email'' = Some ''a@x.com''"
    by (simp_all add: register_form_def post_request_def)
  have f: "filter_by_email empty_app ''a@x.com'' = None"
    by (simp add: filter_by_email_def empty_app_def)
  have lm: "request_method (login_form ''a@x.com'' q) = POST"
    and le: "form (login_form ''a@x.com'' q) ''email'' = Some ''a@x.com''"
    and lp: "form (login_form ''a@x.com'' q) ''password'' = Some q" for q
    by (simp_all add: login_form_def post_request_def)
  have c1: "check_password_hash plain_werkzeug (generate_password_hash plain_werkzeug ''pw1'') ''pw1''"
    and c2: "\<not> check_password_hash plain_werkzeug (generate_password_hash plain_werkzeug ''pw1'') ''pw2''"
    by (simp_all add: plain_werkzeug_def)
  have "\<exists>r s'. register plain_werkzeug ?req empty_app = (Inr r, s')
         \<and> login plain_werkzeug (login_form ''a@x.com'' ''pw1'') s' =
             (Inr (Redirect ''get_all_posts'' []), s')
         \<and> login plain_werkzeug (login_form ''a@x.com'' ''pw2'') s' =
             (Inr (Render ''login.html''
                [(''error'', Str password_incorrect), (''logged_in'', Flag True)]), s')"
    using login_after_register [OF m n p e f lm le lp, of plain_werkzeug "''pw1''"]
      login_after_register [OF m n p e f lm le lp, of plain_werkzeug "''pw2''"] c1 c2
    by auto
  then show ?thesis using m n p e f lm le lp by simp
qed

text \<open>
  C3, as stated, asks that the registered password verifies and that every other
  string fails. No pair of library functions whose hashes fit the column of line
  48 (250 characters) achieves both: there are infinitely many passwords and
  finitely many such hashes, so two passwords share a hash, and each verifies
  against the account of the other.
\<close>

theorem some_other_password_verifies:
  "\<not> (\<exists>wz. (\<forall>password. length (generate_password_hash wz password) \<le> 250) \<and>
         (\<forall>password p.
            (fst (login wz (login_form ''a@x.com'' p)
                   (snd (register wz (register_form ''A'' ''a@x.com'' password) empty_app)))
               = Inr (Redirect ''get_all_posts'' [])) = (p = password)))"
proof
  assume "\<exists>wz. (\<forall>password. length (generate_password_hash wz password) \<le> 250) \<and>
         (\<forall>password p.
            (fst (login wz (login_form ''a@x.com'' p)
                   (snd (register wz (register_form ''A'' ''a@x.com'' password) empty_app)))
               = Inr (Redirect ''get_all_posts'' [])) = (p = password))"
  then obtain wz where bound: "\<And>password. length (generate_password_hash wz password) \<le> 250"
    and spec: "\<And>password p.
            (fst (login wz (login_form ''a@x.com'' p)
                   (snd (register wz (register_form ''A'' ''a@x.com'' password) empty_app)))
               = Inr (Redirect ''get_all_posts'' [])) = (p = password)"
    by blast
  let ?gen = "generate_password_hash wz"
  have f: "filter_by_email empty_app ''a@x.com'' = None"
    by (simp add: filter_by_email_def empty_app_def)
  have code: "fst (login wz (login_form ''a@x.com'' p)
                   (snd (register wz (register_form ''A'' ''a@x.com'' password) empty_app)))
        = (if check_password_hash wz (?gen password) p
            then Inr (Redirect ''get_all_posts'' [])
            else Inr (Render ''login.html''
                   [(''error'', Str password_incorrect), (''logged_in'', Flag True)]))"
    for p password
  proof -
    let ?req = "register_form ''A'' ''a@x.com'' password"
    have r: "request_method ?req = POST" "form ?req ''name'' = Some ''A''"
      "form ?req ''password'' = Some password" "form ?req ''email'' = Some ''a@x.com''"
      by (simp_all add: register_form_def post_request_def)
    have l: "request_method (login_form ''a@x.com'' p) = POST"
      "form (login_form ''a@x.com'' p) ''email'' = Some ''a@x.com''"
      "form (login_form ''a@x.com'' p) ''password'' = Some p"
      by (simp_all add: login_form_def post_request_def)
    show ?thesis
      using register_fresh [OF r f, of wz] login_registered [OF f l, of wz "''A''" password]
      by simp
  qed
  have iff: "check_password_hash wz (?gen password) p = (p = password)" for p password
    using spec [of p password] unfolding code by (simp split: if_splits)
  have inj: "inj ?gen"
  proof (rule injI)
    fix x y assume "?gen x = ?gen y"
    then have "check_password_hash wz (?gen x) y = check_password_hash wz (?gen y) y" by simp
    then show "x = y" by (simp add: iff)
  qed
  have "range ?gen \<subseteq> {xs. length xs \<le> 250}" using bound by auto
  moreover have "finite {xs::string. set xs \<subseteq> UNIV \<and> length xs \<le> 250}"
    by (rule finite_lists_length_le) simp
  then have "finite {xs::string. length xs \<le> 250}" by simp
  ultimately have "finite (range ?gen)" by (rule finite_subset)
  then have "finite (UNIV :: string set)" using inj by (rule finite_imageD)
  then show False by (simp add: infinite_UNIV_listI)
qed

text \<open>
  C9. A failed login names its cause: an email no stored user has and a stored
  user whose password does not verify each render the login form again, with two
  different messages. In both cases the state, the session's user included, is
  what it was: no session is established.
\<close>

theorem failed_login_messages:
  assumes "request_method req = POST"
    and "form req ''email'' = Some email"
    and "form req ''password'' = Some password"
  shows "(filter_by_email s email = None \<longrightarrow>
            login wz req s =
              (Inr (Render ''login.html'' [(''error'', Str email_unknown), logged_in s]), s))
       \<and> (\<forall>user. filter_by_email s email = Some user
                 \<and> \<not> check_password_hash wz (u_password user) password \<longrightarrow>
            login wz req s =
              (Inr (Render ''login.html'' [(''error'', Str password_incorrect), logged_in s]), s))
       \<and> email_unknown \<noteq> password_incorrect"
  using assms by (simp add: login_def email_unknown_def password_incorrect_def)

theorem failed_login_messages_witness:
  "request_method (login_form ''b@x.com'' ''pw1'') = POST
   \<and> form (login_form ''b@x.com'' ''pw1'') ''email'' = Some ''b@x.com''
   \<and> form (login_form ''b@x.com'' ''pw1'') ''password'' = Some ''pw1''
   \<and> filter_by_email (blog None) ''b@x.com'' = None
   \<and> login plain_werkzeug (login_form ''b@x.com'' ''pw1'') (blog None) =
        (Inr (Render ''login.html'' [(''error'', Str email_unknown), (''logged_in'', Flag False)]),
         blog None)
   \<and> request_method (login_form ''a@x.com'' ''pw2'') = POST
   \<and> form (login_form ''a@x.com'' ''pw2'') ''email'' = Some ''a@x.com''
   \<and> form (login_form ''a@x.com'' ''pw2'') ''password'' = Some ''pw2''
   \<and> filter_by_email (blog None) ''a@x.com'' = Some user_a
   \<and> \<not> check_password_hash plain_werkzeug (u_password user_a) ''pw2''
   \<and> login plain_werkzeug (login_form ''a@x.com'' ''pw2'') (blog None) =
        (Inr (Render ''login.html''
           [(''error'', Str password_incorrect), (''logged_in'', Flag False)]), blog None)
   \<and> session_user_id (blog None) = None"
proof -
  have m: "request_method (login_form e q) = POST"
    and fe: "form (login_form e q) ''email'' = Some e"
    and fp: "form (login_form e q) ''password'' = Some q" for e q
    by (simp_all add: login_form_def post_request_def)
  have n: "filter_by_email (blog None) ''b@x.com'' = None"
    by (simp add: filter_by_email_def blog_def admin_def user_a_def)
  have k: "filter_by_email (blog None) ''a@x.com'' = Some user_a"
    by (simp add: filter_by_email_def blog_def admin_def user_a_def)
  have w: "\<not> check_password_hash plain_werkzeug (u_password user_a) ''pw2''"
    by (simp add: plain_werkzeug_def user_a_def)
  have l: "logged_in (blog None) = (''logged_in'', Flag False)"
    by (simp add: logged_in_def current_user_def blog_def)
  have s: "session_user_id (blog None) = None" by (simp add: blog_def)
  show ?thesis
    using failed_login_messages [OF m fe fp, of "blog None" "''b@x.com''" plain_werkzeug "''pw1''"]
      failed_login_messages [OF m fe fp, of "blog None" "''a@x.com''" plain_werkzeug "''pw2''"]
      n k w
    by (simp add: m fe fp l s)
qed

subsection \<open>Comments\<close>

text \<open>
  C7. When an authenticated user's comment on a post is accepted, exactly one
  comment is appended: its author is the current user, its parent is the
  requested post, its identifier is new, and the number of comments on that post
  grows by one. The earlier comments, the posts, the users and the session stay
  as they were.
\<close>

theorem comment_recorded:
  assumes "current_user s = Authenticated u"
    and "request_method req = POST"
    and "route_show_post post_id req s = (Inr r, s')"
  shows "\<exists>new_comment.
           comments s' = comments s @ [new_comment]
         \<and> c_author_id new_comment = Some (u_id u)
         \<and> c_post_id new_comment = Some post_id
         \<and> c_id new_comment \<notin> set (map c_id (comments s))
         \<and> comments_on post_id s' = comments_on post_id s + 1
         \<and> Users s' = Users s \<and> blog_posts s' = blog_posts s
         \<and> session_user_id s' = session_user_id s"
proof -
  have sp: "show_post post_id req s = (Inr r, s')"
    using assms(2,3) by (simp add: route_show_post_def url_rule_def post_id_param_def)
  from sp assms(1,2) obtain words where
    s': "s' = s\<lparr>comments := comments s @
            [\<lparr>c_id = next_id (map c_id (comments s)), c_author_id = Some (u_id u),
              c_text = words, c_post_id = Some post_id\<rparr>]\<rparr>"
    by (auto simp: show_post_def Let_def split: if_splits option.splits)
  show ?thesis
    unfolding s' using next_id_fresh [of "map c_id (comments s)"]
    by (simp add: comments_on_def)
qed

theorem comment_recorded_witness:
  "current_user (blog (Some 2)) = Authenticated user_a
   \<and> request_method (comment_form ''Nice post'') = POST
   \<and> route_show_post 1 (comment_form ''Nice post'') (blog (Some 2)) =
       (Inr (Redirect ''get_all_posts'' []),
        (blog (Some 2))\<lparr>comments :=
           [\<lparr>c_id = 1, c_author_id = Some 2, c_text = ''Nice post'', c_post_id = Some 1\<rparr>]\<rparr>)
   \<and> comments_on 1 (blog (Some 2)) = 0
   \<and> comments_on 1 ((blog (Some 2))\<lparr>comments :=
           [\<lparr>c_id = 1, c_author_id = Some 2, c_text = ''Nice post'', c_post_id = Some 1\<rparr>]\<rparr>) = 1"
proof -
  let ?s' = "(blog (Some 2))\<lparr>comments :=
           [\<lparr>c_id = 1, c_author_id = Some 2, c_text = ''Nice post'', c_post_id = Some 1\<rparr>]\<rparr>"
  have a: "current_user (blog (Some 2)) = Authenticated user_a"
    by (simp add: current_user_def load_user_def blog_def admin_def user_a_def)
  have b: "request_method (comment_form ''Nice post'') = POST"
    by (simp add: comment_form_def post_request_def)
  have c: "route_show_post 1 (comment_form ''Nice post'') (blog (Some 2)) =
             (Inr (Redirect ''get_all_posts'' []), ?s')"
    using a
    by (simp add: route_show_post_def url_rule_def post_id_param_def show_post_def
        comment_form_def post_request_def validate_on_submit_def next_id_def)
       (simp add: blog_def user_a_def)
  have d: "comments_on 1 (blog (Some 2)) = 0" by (simp add: comments_on_def blog_def)
  from comment_recorded [OF a b c] have "comments_on 1 ?s' = 1" using d by simp
  with a b c d show ?thesis by simp
qed

subsection \<open>Deleting a post\<close>

lemma get_post_stored:
  assumes "p \<in> set (blog_posts s)"
  shows "get_post s (bp_id p) \<noteq> None"
  using assms by (auto simp: get_post_def find_None_iff)

lemma other_post_other_id:
  assumes "distinct (map bp_id (blog_posts s))"
    and "p \<in> set (blog_posts s)" and "q \<in> set (blog_posts s)" and "q \<noteq> p"
  shows "bp_id q \<noteq> bp_id p"
  using assms by (auto simp: distinct_map dest: inj_onD)

text \<open>
  The undecorated handler of lines 237--241, were it called: for a stored post
  \<open>p\<close> (identifiers are a primary key, hence distinct) it succeeds, and the
  listing of \<open>get_all_posts\<close> afterwards is the former one without \<open>p\<close>.
  No request reaches it: the route below is what the application serves.
\<close>

lemma delete_post_handler_unlists:
  assumes "p \<in> set (blog_posts s)"
    and "distinct (map bp_id (blog_posts s))"
  shows "\<exists>r s' listed.
           delete_post (bp_id p) req s = (Inr r, s')
         \<and> get_all_posts req' s' =
             (Inr (Render ''index.html''
                [(''all_posts'', PostsV listed), logged_in s', (''all_users'', UsersV (Users s))]), s')
         \<and> p \<notin> set listed
         \<and> (\<forall>q. q \<in> set (blog_posts s) \<and> q \<noteq> p \<longrightarrow> q \<in> set listed)
         \<and> listed = filter (\<lambda>q. q \<noteq> p) (blog_posts s)"
proof -
  obtain p' where g: "get_post s (bp_id p) = Some p'"
    using get_post_stored [OF assms(1)] by auto
  let ?listed = "filter (\<lambda>q. bp_id q \<noteq> bp_id p) (blog_posts s)"
  let ?s' = "s\<lparr>blog_posts := ?listed,
               comments := map (\<lambda>c. if c_post_id c = Some (bp_id p)
                                   then c\<lparr>c_post_id := None\<rparr> else c) (comments s)\<rparr>"
  have d: "delete_post (bp_id p) req s = (Inr (Redirect ''get_all_posts'' [logged_in ?s']), ?s')"
    using g by (simp add: delete_post_def Let_def)
  have l: "get_all_posts req' ?s' =
             (Inr (Render ''index.html''
                [(''all_posts'', PostsV ?listed), logged_in ?s', (''all_users'', UsersV (Users s))]), ?s')"
    by (simp add: get_all_posts_def)
  have e: "?listed = filter (\<lambda>q. q \<noteq> p) (blog_posts s)"
    using other_post_other_id [OF assms(2) assms(1)] by (intro filter_cong) auto
  have "p \<notin> set ?listed" by simp
  moreover have "\<forall>q. q \<in> set (blog_posts s) \<and> q \<noteq> p \<longrightarrow> q \<in> set ?listed"
    unfolding e by simp
  ultimately show ?thesis using d l e by blast
qed

lemma route_delete_never_succeeds:
  "route_delete post_id req s \<noteq> (Inr r, s')"
  by (simp add: route_delete_def guarded_post_id_view)

lemma listing_after_route_delete:
  "get_all_posts req' (snd (route_delete post_id req s)) = get_all_posts req' s"
  by (simp add: route_delete_def guarded_post_id_view)


subsection \<open>Referential integrity\<close>

lemma names_session [simp]:
  "names_user (s\<lparr>session_user_id := i\<rparr>) r = names_user s r"
  "names_post (s\<lparr>session_user_id := i\<rparr>) r = names_post s r"
  by (simp_all add: names_user_def names_post_def cong: option.case_cong)

lemma references_exist_session [simp]:
  "references_exist (s\<lparr>session_user_id := i\<rparr>) = references_exist s"
  by (simp add: references_exist_def)

lemma references_exist_add_user:
  assumes "references_exist s"
  shows "references_exist (s\<lparr>Users := Users s @ [u]\<rparr>)"
  using assms
  by (auto simp: references_exist_def names_user_def names_post_def list_all_iff
      split: option.splits)

lemma references_exist_add_post:
  assumes "references_exist s" and "bp_author_id p = Some a" and "a \<in> set (map u_id (Users s))"
  shows "references_exist (s\<lparr>blog_posts := blog_posts s @ [p]\<rparr>)"
  using assms
  by (auto simp: references_exist_def names_user_def names_post_def list_all_iff
      split: option.splits)

lemma references_exist_add_comment:
  assumes "references_exist s"
    and "c_author_id c = Some a" and "a \<in> set (map u_id (Users s))"
    and "c_post_id c = Some i" and "i \<in> set (map bp_id (blog_posts s))"
  shows "references_exist (s\<lparr>comments := comments s @ [c]\<rparr>)"
  using assms
  by (auto simp: references_exist_def names_user_def names_post_def list_all_iff
      split: option.splits)

lemma current_user_stored:
  assumes "current_user s = Authenticated u"
  shows "u_id u \<in> set (map u_id (Users s))"
proof -
  from assms obtain i where "load_user s i = Some u"
    by (auto simp: current_user_def split: option.splits)
  then have "u \<in> set (Users s)" unfolding load_user_def by (auto dest: find_SomeD)
  then show ?thesis by simp
qed

lemma get_post_id_stored:
  assumes "get_post s post_id \<noteq> None"
  shows "post_id \<in> set (map bp_id (blog_posts s))"
  using assms by (auto simp: get_post_def find_None_iff)

lemma register_keeps:
  assumes "references_exist s"
  shows "references_exist (snd (register wz req s)) \<and>
         foreign_keys (snd (register wz req s)) = foreign_keys s"
  using assms references_exist_add_user [OF assms]
  by (auto simp: register_def Let_def login_user_def split: http_method.splits option.splits)

lemma login_keeps:
  assumes "references_exist s"
  shows "references_exist (snd (login wz req s)) \<and>
         foreign_keys (snd (login wz req s)) = foreign_keys s"
  using assms
  by (auto simp: login_def login_user_def split: http_method.splits option.splits)

lemma logout_keeps:
  assumes "references_exist s"
  shows "references_exist (snd (logout req s)) \<and>
         foreign_keys (snd (logout req s)) = foreign_keys s"
  using assms by (simp add: logout_def logout_user_def Let_def)

lemma add_new_post_keeps:
  assumes "references_exist s"
  shows "references_exist (snd (add_new_post req s)) \<and>
         foreign_keys (snd (add_new_post req s)) = foreign_keys s"
proof (cases "current_user s")
  case Anonymous
  with assms show ?thesis by (simp add: add_new_post_def)
next
  case (Authenticated u)
  have "references_exist (s\<lparr>blog_posts := blog_posts s @ [p]\<rparr>)"
    if "bp_author_id p = Some (u_id u)" for p
    using assms that current_user_stored [OF Authenticated] by (rule references_exist_add_post)
  with assms Authenticated show ?thesis
    by (simp add: add_new_post_def Let_def split: option.splits)
qed

lemma show_post_keeps:
  assumes "references_exist s" and "foreign_keys s"
  shows "references_exist (snd (show_post post_id req s)) \<and>
         foreign_keys (snd (show_post post_id req s))"
proof (cases "current_user s")
  case Anonymous
  with assms show ?thesis
    by (simp add: show_post_def split: http_method.splits option.splits)
next
  case (Authenticated u)
  have "references_exist (s\<lparr>comments := comments s @ [c]\<rparr>)"
    if "c_author_id c = Some (u_id u)" and "c_post_id c = Some post_id"
      and "get_post s post_id \<noteq> None" for c
    using assms(1) that(1) current_user_stored [OF Authenticated] that(2)
      get_post_id_stored [OF that(3)]
    by (rule references_exist_add_comment)
  with assms Authenticated show ?thesis
    by (simp add: show_post_def Let_def split: http_method.splits option.splits)
qed

lemma perform_keeps:
  assumes "references_exist s" and "foreign_keys s"
  shows "references_exist (snd (perform wz operation s)) \<and>
         foreign_keys (snd (perform wz operation s))"
proof (cases operation)
  case (Register req)
  with assms register_keeps [OF assms(1), of wz req] show ?thesis
    by (simp add: url_rule_def no_params_def)
next
  case (Login req)
  with assms login_keeps [OF assms(1), of wz req] show ?thesis
    by (simp add: url_rule_def no_params_def)
next
  case (Logout req)
  with assms logout_keeps [OF assms(1), of req] show ?thesis
    by (simp add: url_rule_def no_params_def)
next
  case (New_Post req)
  with assms add_new_post_keeps [OF assms(1), of req] show ?thesis
    by (simp add: route_new_post_guard split: current.splits)
next
  case (Edit_Post post_id req)
  with assms show ?thesis by (simp add: route_edit_post_def guarded_post_id_view)
next
  case (Delete post_id req)
  with assms show ?thesis by (simp add: route_delete_def guarded_post_id_view)
next
  case (Show_Post post_id req)
  with assms show_post_keeps [OF assms, of post_id req] show ?thesis
    by (simp add: route_show_post_def url_rule_def post_id_param_def)
qed

text \<open>
  Where the engine enforces the declared foreign keys, every run of the
  application from a state whose references exist ends in such a state.
\<close>

lemma run_keeps_references:
  assumes "references_exist s" and "foreign_keys s"
  shows "references_exist (run wz operations s)"
  using assms
proof (induction operations arbitrary: s)
  case Nil
  then show ?case by simp
next
  case (Cons operation operations)
  from perform_keeps [OF Cons.prems, of wz operation]
  show ?case by (simp add: Cons.IH)
qed

text \<open>
  C4. After every sequence of operations each comment's author and parent post,
  and each post's author, name stored rows. On an engine that does not enforce
  foreign keys this fails after two requests: a user registers and posts a
  comment to \<open>/post/7\<close> while no post exists. The POST branch of \<open>show_post\<close>
  never looks the post up, and the comment is stored with the parent 7.
\<close>

theorem comment_on_missing_post_stored:
  "run plain_werkzeug
     [Register (register_form ''A'' ''a@x.com'' ''pw1''), Show_Post 7 (comment_form ''Hi'')]
     empty_app =
     \<lparr>Users = [\<lparr>u_id = 1, u_email = ''a@x.com'', u_password = ''pbkdf2:sha256$salt$pw1'',
                u_name = ''A''\<rparr>],
      blog_posts = [],
      comments = [\<lparr>c_id = 1, c_author_id = Some 1, c_text = ''Hi'', c_post_id = Some 7\<rparr>],
      session_user_id = Some 1, foreign_keys = False\<rparr>
   \<and> references_exist empty_app
   \<and> \<not> references_exist
        (run plain_werkzeug
           [Register (register_form ''A'' ''a@x.com'' ''pw1''), Show_Post 7 (comment_form ''Hi'')]
           empty_app)"
proof -
  let ?u = "\<lparr>u_id = 1, u_email = ''a@x.com'', u_password = ''pbkdf2:sha256$salt$pw1'',
             u_name = ''A''\<rparr>"
  let ?s1 = "\<lparr>Users = [?u], blog_posts = [], comments = [], session_user_id = Some 1,
              foreign_keys = False\<rparr>"
  let ?s2 = "\<lparr>Users = [?u], blog_posts = [],
      comments = [\<lparr>c_id = 1, c_author_id = Some 1, c_text = ''Hi'', c_post_id = Some 7\<rparr>],
      session_user_id = Some 1, foreign_keys = False\<rparr>"
  have r: "snd (register plain_werkzeug (register_form ''A'' ''a@x.com'' ''pw1'') empty_app) = ?s1"
    by (simp add: register_def register_form_def post_request_def empty_app_def
        filter_by_email_def Let_def login_user_def next_id_def plain_werkzeug_def)
  have cu: "current_user ?s1 = Authenticated ?u"
    by (simp add: current_user_def load_user_def)
  have c: "snd (show_post 7 (comment_form ''Hi'') ?s1) = ?s2"
    using cu
    by (simp add: show_post_def comment_form_def post_request_def validate_on_submit_def
        Let_def next_id_def)
  have run: "run plain_werkzeug
     [Register (register_form ''A'' ''a@x.com'' ''pw1''), Show_Post 7 (comment_form ''Hi'')]
     empty_app = ?s2"
    using r c
    by (simp add: url_rule_def no_params_def route_show_post_def post_id_param_def
        register_form_def comment_form_def post_request_def)
  have e: "references_exist empty_app"
    by (simp add: references_exist_def empty_app_def)
  have n: "\<not> references_exist ?s2"
    by (simp add: references_exist_def names_post_def)
  show ?thesis unfolding run using e n by simp
qed

end
